theory Spec2Isabelle
  imports Main "HOL-Library.Sublist" "HOL-Library.AList"
begin

section \<open>Python strings\<close>

text \<open>
  A Python \<open>str\<close> whose characters have code points below 256 is modelled as a
  \<open>string\<close>, the character with code point \<open>n\<close> as the 8-bit character \<open>n\<close>. On
  these strings the methods below act as CPython's do. Characters with larger code
  points are outside the model.
\<close>

text \<open>
  \<^verbatim>\<open>c.lower()\<close> for one character: the 26 ASCII capitals, and the capitals 0xC0..0xDE
  of the upper half (all but the multiplication sign 0xD7), which move up by 0x20.
\<close>

definition lower_char :: "char \<Rightarrow> char" where
  "lower_char c =
     (case map_of
        (zip (''ABCDEFGHIJKLMNOPQRSTUVWXYZ'' @
           [CHR 0xC0, CHR 0xC1, CHR 0xC2, CHR 0xC3, CHR 0xC4, CHR 0xC5, CHR 0xC6, CHR 0xC7, CHR 0xC8, CHR 0xC9,
            CHR 0xCA, CHR 0xCB, CHR 0xCC, CHR 0xCD, CHR 0xCE, CHR 0xCF, CHR 0xD0, CHR 0xD1, CHR 0xD2, CHR 0xD3,
            CHR 0xD4, CHR 0xD5, CHR 0xD6, CHR 0xD8, CHR 0xD9, CHR 0xDA, CHR 0xDB, CHR 0xDC, CHR 0xDD, CHR 0xDE])
          (''abcdefghijklmnopqrstuvwxyz'' @
           [CHR 0xE0, CHR 0xE1, CHR 0xE2, CHR 0xE3, CHR 0xE4, CHR 0xE5, CHR 0xE6, CHR 0xE7, CHR 0xE8, CHR 0xE9,
            CHR 0xEA, CHR 0xEB, CHR 0xEC, CHR 0xED, CHR 0xEE, CHR 0xEF, CHR 0xF0, CHR 0xF1, CHR 0xF2, CHR 0xF3,
            CHR 0xF4, CHR 0xF5, CHR 0xF6, CHR 0xF8, CHR 0xF9, CHR 0xFA, CHR 0xFB, CHR 0xFC, CHR 0xFD, CHR 0xFE])) c of
        Some d \<Rightarrow> d
      | None \<Rightarrow> c)"

text \<open>\<^verbatim>\<open>text.lower()\<close>\<close>

definition str_lower :: "string \<Rightarrow> string" where
  "str_lower s = map lower_char s"

text \<open>
  \<^verbatim>\<open>c.isspace()\<close> for one character: tab, line feed, vertical tab, form feed,
  carriage return, the four separators 0x1C..0x1F, the space, next line (0x85) and the
  no-break space (0xA0).
\<close>

definition is_space :: "char \<Rightarrow> bool" where
  "is_space c \<longleftrightarrow>
     c \<in> set [CHR 0x09, CHR 0x0A, CHR 0x0B, CHR 0x0C, CHR 0x0D,
               CHR 0x1C, CHR 0x1D, CHR 0x1E, CHR 0x1F, CHR 0x20, CHR 0x85, CHR 0xA0]"

text \<open>\<^verbatim>\<open>s.strip()\<close>: white space removed at both ends.\<close>

definition str_strip :: "string \<Rightarrow> string" where
  "str_strip s = rev (dropWhile is_space (rev (dropWhile is_space s)))"

text \<open>
  The line boundaries of \<^verbatim>\<open>str.splitlines\<close>: line feed, carriage return, vertical
  tab, form feed, the separators 0x1C, 0x1D, 0x1E and next line (0x85). A carriage
  return followed by a line feed is one boundary.
\<close>

definition is_linebreak :: "char \<Rightarrow> bool" where
  "is_linebreak c \<longleftrightarrow>
     c \<in> set [CHR 0x0A, CHR 0x0D, CHR 0x0B, CHR 0x0C, CHR 0x1C, CHR 0x1D, CHR 0x1E, CHR 0x85]"

text \<open>
  \<^verbatim>\<open>s.splitlines()\<close>, with the characters of the current line accumulated in reverse.
  The boundaries are not kept, and no empty line is produced after the last boundary.
\<close>

fun splitlines_from :: "string \<Rightarrow> string \<Rightarrow> string list" where
  "splitlines_from cur [] = (if cur = [] then [] else [rev cur])"
| "splitlines_from cur [c] =
     (if is_linebreak c then [rev cur] else [rev (c # cur)])"
| "splitlines_from cur (c # d # cs) =
     (if c = CHR 0x0D \<and> d = CHR 0x0A then rev cur # splitlines_from [] cs
      else if is_linebreak c then rev cur # splitlines_from [] (d # cs)
      else splitlines_from (c # cur) (d # cs))"

definition str_splitlines :: "string \<Rightarrow> string list" where
  "str_splitlines s = splitlines_from [] s"

text \<open>\<^verbatim>\<open>s.replace("*", "")\<close>: every asterisk of the string is deleted.\<close>

definition str_replace_star :: "string \<Rightarrow> string" where
  "str_replace_star s = filter (\<lambda>c. c \<noteq> CHR ''*'') s"

text \<open>\<^verbatim>\<open>sep.join(xs)\<close>\<close>

fun str_join :: "string \<Rightarrow> string list \<Rightarrow> string" where
  "str_join sep [] = []"
| "str_join sep [x] = x"
| "str_join sep (x # y # ys) = x @ sep @ str_join sep (y # ys)"

text \<open>
  \<^verbatim>\<open>re.search(pat, s)\<close> for a pattern without metacharacters, read as a truth value:
  the pattern occurs in \<open>s\<close> at some position. Both patterns of \<open>check_result\<close> consist
  of letters, a colon and spaces only.
\<close>

fun re_search :: "string \<Rightarrow> string \<Rightarrow> bool" where
  "re_search pat [] = (pat = [])"
| "re_search pat (c # cs) = (prefix pat (c # cs) \<or> re_search pat cs)"


section \<open>Verdict extraction\<close>

text \<open>
  \<open>check_result\<close> returns the Python string \<^verbatim>\<open>"FAKE"\<close> or \<^verbatim>\<open>"REAL"\<close>, or \<^verbatim>\<open>None\<close>;
  the caller shows \<^verbatim>\<open>None\<close> as the neutral (unknown) verdict.
\<close>

definition check_result :: "string \<Rightarrow> string option" where
  "check_result text =
     (let text_lower = str_lower text in
      if re_search ''final result: fake'' text_lower then Some ''FAKE''
      else if re_search ''final result: real'' text_lower then Some ''REAL''
      else None)"


section \<open>Values, exceptions and effects\<close>

text \<open>
  The JSON-like values the search service returns (\<^verbatim>\<open>Dict[str, Any]\<close>): a dictionary is
  an association list with string keys.
\<close>

datatype pyval =
    PNone
  | PStr string
  | PInt int
  | PList "pyval list"
  | PDict "(string \<times> pyval) list"

text \<open>
  The exceptions that are instances of \<^verbatim>\<open>Exception\<close>. \<open>OtherException\<close> stands for any
  class that is neither one of the four named ones nor a subclass of them, with its
  message.
\<close>

datatype py_exn = IndexError | KeyError | AttributeError | TypeError | OtherException string

fun bind_exn :: "py_exn + 'a \<Rightarrow> ('a \<Rightarrow> py_exn + 'b) \<Rightarrow> py_exn + 'b" where
  "bind_exn (Inl e) f = Inl e"
| "bind_exn (Inr x) f = f x"

text \<open>Truth value of a value, as \<^verbatim>\<open>if not context\<close> reads it.\<close>

fun py_truthy :: "pyval \<Rightarrow> bool" where
  "py_truthy PNone = False"
| "py_truthy (PStr s) = (s \<noteq> [])"
| "py_truthy (PInt i) = (i \<noteq> 0)"
| "py_truthy (PList xs) = (xs \<noteq> [])"
| "py_truthy (PDict d) = (d \<noteq> [])"

text \<open>
  \<^verbatim>\<open>context[0]\<close>: a list or string gives its first element or raises IndexError, a
  dictionary with string keys has no key \<open>0\<close> and raises KeyError, \<^verbatim>\<open>None\<close> and
  integers are not subscriptable.
\<close>

fun py_getitem0 :: "pyval \<Rightarrow> py_exn + pyval" where
  "py_getitem0 (PList []) = Inl IndexError"
| "py_getitem0 (PList (x # xs)) = Inr x"
| "py_getitem0 (PStr []) = Inl IndexError"
| "py_getitem0 (PStr (c # cs)) = Inr (PStr [c])"
| "py_getitem0 (PDict d) = Inl KeyError"
| "py_getitem0 PNone = Inl TypeError"
| "py_getitem0 (PInt i) = Inl TypeError"

text \<open>\<^verbatim>\<open>obj.get(key, default)\<close>: only a dictionary has the method.\<close>

fun py_get :: "pyval \<Rightarrow> string \<Rightarrow> pyval \<Rightarrow> py_exn + pyval" where
  "py_get (PDict d) key dflt = Inr (case map_of d key of Some v \<Rightarrow> v | None \<Rightarrow> dflt)"
| "py_get PNone key dflt = Inl AttributeError"
| "py_get (PStr s) key dflt = Inl AttributeError"
| "py_get (PInt i) key dflt = Inl AttributeError"
| "py_get (PList xs) key dflt = Inl AttributeError"

text \<open>\<^verbatim>\<open>obj.strip()\<close>: only a string has the method.\<close>

fun py_strip :: "pyval \<Rightarrow> py_exn + string" where
  "py_strip (PStr s) = Inr (str_strip s)"
| "py_strip PNone = Inl AttributeError"
| "py_strip (PInt i) = Inl AttributeError"
| "py_strip (PList xs) = Inl AttributeError"
| "py_strip (PDict d) = Inl AttributeError"

text \<open>\<^verbatim>\<open>genai.GenerativeModel(name, system_instruction=...)\<close>\<close>

datatype llm_model = GenerativeModel string "string option"

text \<open>
  The response object of the language model, given by what reading its \<^verbatim>\<open>.text\<close>
  yields: the text, or the exception the property raises.
\<close>

type_synonym llm_response = "py_exn + string"

text \<open>What a run does to the outside, in order.\<close>

datatype event =
    St_spinner string
  | St_success string
  | St_error string
  | St_warning string
  | St_info string
  | St_empty
  | St_expander string
  | St_text_area string string
  | Logging_error string py_exn
  | Logging_warning string
  | Llm_call llm_model string
  | Search_call string
  | Sleep nat

text \<open>
  The two external services. Each call reads and changes the state \<open>'w\<close> of the outside
  world, and either raises or returns:
  \<^item> \<open>generate_content_async m prompt\<close> is \<^verbatim>\<open>await m.generate_content_async(prompt)\<close>;
  \<^item> \<open>tavily_search query\<close> is \<^verbatim>\<open>await tavily_client.search(query=query)\<close>.
\<close>

record 'w services =
  generate_content_async :: "llm_model \<Rightarrow> string \<Rightarrow> 'w \<Rightarrow> (py_exn + llm_response) \<times> 'w"
  tavily_search :: "string \<Rightarrow> 'w \<Rightarrow> (py_exn + pyval) \<times> 'w"


section \<open>The pipeline\<close>

definition SYSTEM_INSTRUCTION :: string where
  "SYSTEM_INSTRUCTION =
     ''You are an AI assistant designed to analyze the validity of news. '' @
     ''Your responses should be concise, formatted as bullet points, and avoid '' @
     ''any additional commentary. Maintain a neutral and objective tone, ensuring '' @
     ''that each assumption is framed as a question that can be directly queried online.''"

definition model :: llm_model where
  "model = GenerativeModel ''gemini-1.5-flash'' (Some SYSTEM_INSTRUCTION)"

definition model_eval :: llm_model where
  "model_eval = GenerativeModel ''gemini-1.5-flash'' None"

definition create_template :: "string \<Rightarrow> string" where
  "create_template user_input =
     ''Here is a statement:\<newline>'' @
     user_input @
     ''\<newline>'' @
     ''Make a bullet point list of the assumptions you made when given the above statement.\<newline>'' @
     ''These assumptions will then be used to check online for the validity of the statement.\<newline>'' @
     ''Only Give Bullet Points, No Other Text\<newline>'' @
     ''\<newline>'' @
     ''Example:\<newline>'' @
     ''\<newline>'' @
     ''Input:\<newline>'' @
     ''deepseek company is owned by elon musk\<newline>'' @
     ''\<newline>'' @
     ''Output:\<newline>'' @
     ''* Does elon musk own deepseek?\<newline>'' @
     ''* Does Elon Musk have any publicly known business interests or holdings that could include a company named '' @
     [CHR 0x22] @ ''Deepseek'' @ [CHR 0x22] @ ''?\<newline>'' @
     ''* Are there any news articles, press releases, or official statements confirming Elon Musk'' @
     [CHR 0x27] @ ''s ownership of '' @ [CHR 0x22] @ ''Deepseek'' @ [CHR 0x22] @ ''?\<newline>'' @
     ''* Do any financial databases or corporate registries list Elon Musk as an owner or shareholder of '' @
     [CHR 0x22] @ ''Deepseek'' @ [CHR 0x22] @ ''?\<newline>''"

text \<open>
  \<open>generate_assertions\<close>: one call of the model; any exception of the call or of reading
  the response's text is caught, logged and answered by the empty list.
\<close>

definition generate_assertions ::
  "'w services \<Rightarrow> string \<Rightarrow> 'w \<Rightarrow> string list \<times> 'w \<times> event list" where
  "generate_assertions sv user_input w =
     (let template = create_template user_input;
          (response, w') = generate_content_async sv model template w;
          started = [St_spinner ''Identifying key assumptions for verification...'',
                     Llm_call model template]
      in case bind_exn response (\<lambda>r. r) of
           Inr text \<Rightarrow>
             (let assertions = str_strip text;
                  assertions_list =
                    map (\<lambda>line. str_replace_star (str_strip line))
                      (filter (\<lambda>line. str_strip line \<noteq> []) (str_splitlines assertions))
              in (assertions_list, w', started @ [St_success ''Key assumptions identified.'']))
         | Inl e \<Rightarrow>
             ([], w',
              started @ [Logging_error ''Error generating assertions: '' e,
                         St_error ''Failed to identify assumptions.'']))"

text \<open>
  \<open>fetch_result\<close>: one search; any exception of the call or of \<^verbatim>\<open>result.get\<close> is caught,
  logged and answered by the empty list for this assertion.
\<close>

definition fetch_result ::
  "'w services \<Rightarrow> string \<Rightarrow> 'w \<Rightarrow> (string \<times> pyval) \<times> 'w \<times> event list" where
  "fetch_result sv assertion w =
     (let (result, w') = tavily_search sv assertion w
      in case bind_exn result (\<lambda>r. py_get r ''results'' (PList [])) of
           Inr res \<Rightarrow> ((assertion, res), w', [Search_call assertion])
         | Inl e \<Rightarrow>
             ((assertion, PList []), w',
              [Search_call assertion,
               Logging_error
                 (''Error fetching search results for '' @ [CHR 0x27] @ assertion @ [CHR 0x27] @ '': '')
                 e]))"

text \<open>
  \<^verbatim>\<open>asyncio.gather(*tasks)\<close> over the tasks \<open>fetch_result assertion\<close>: the results come
  back in the order of the tasks. The tasks run concurrently; the model lets them act on
  the outside world one after the other in task order.
\<close>

fun gather_fetch ::
  "'w services \<Rightarrow> string list \<Rightarrow> 'w \<Rightarrow> (string \<times> pyval) list \<times> 'w \<times> event list" where
  "gather_fetch sv [] w = ([], w, [])"
| "gather_fetch sv (assertion # assertions) w =
     (let (r, w1, ev1) = fetch_result sv assertion w;
          (rs, w2, ev2) = gather_fetch sv assertions w1
      in (r # rs, w2, ev1 @ ev2))"

text \<open>
  A Python \<open>dict\<close> with string keys is an association list in insertion order. The
  comprehension \<^verbatim>\<open>{assertion: res for assertion, res in results}\<close> stores the pairs from
  left to right: a new key is appended, a key already present keeps its place and takes
  the new value.
\<close>

definition dict_of_pairs :: "(string \<times> 'v) list \<Rightarrow> (string \<times> 'v) list" where
  "dict_of_pairs results = foldl (\<lambda>d (assertion, res). AList.update assertion res d) [] results"

definition fetch_all_results ::
  "'w services \<Rightarrow> string list \<Rightarrow> 'w \<Rightarrow> (string \<times> pyval) list \<times> 'w \<times> event list" where
  "fetch_all_results sv assertions w =
     (let (results, w', ev) = gather_fetch sv assertions w
      in (dict_of_pairs results, w',
          [St_spinner ''Retrieving online verification results...''] @ ev @
          [St_success ''Online verification results retrieved.'']))"

text \<open>
  The first \<^verbatim>\<open>try\<close> block of the loop body of \<open>evaluate_assertions\<close>: title, content and
  url of the first record.
\<close>

definition first_record_fields :: "pyval \<Rightarrow> py_exn + (string \<times> string \<times> string)" where
  "first_record_fields context =
     bind_exn (bind_exn (bind_exn (py_getitem0 context) (\<lambda>r. py_get r ''title'' (PStr []))) py_strip)
       (\<lambda>title.
     bind_exn (bind_exn (bind_exn (py_getitem0 context) (\<lambda>r. py_get r ''content'' (PStr []))) py_strip)
       (\<lambda>content.
     bind_exn (bind_exn (bind_exn (py_getitem0 context) (\<lambda>r. py_get r ''url'' (PStr []))) py_strip)
       (\<lambda>url. Inr (title, content, url))))"

definition evaluation_prompt :: "string \<Rightarrow> string \<Rightarrow> string \<Rightarrow> string" where
  "evaluation_prompt statement content user_input =
     ''Here is a statement:  \<newline>'' @
     str_strip statement @
     ''  \<newline>'' @
     ''\<newline>'' @
     ''Carefully analyze the correctness of this statement using the provided information gathered from the internet:  \<newline>'' @
     content @
     ''  \<newline>'' @
     ''\<newline>'' @
     ''### Step-by-Step Evaluation:\<newline>'' @
     ''1. Identify the key claims made in the statement.  \<newline>'' @
     ''2. Cross-check these claims with the provided context and assess whether they align with verified information.  \<newline>'' @
     ''3. Consider any contradictions or missing details that might affect the validity of the statement.  \<newline>'' @
     ''4. Based on your reasoning, determine whether:\<newline>'' @
     [CHR 0x60, CHR 0x60, CHR 0x60] @ user_input @ [CHR 0x60, CHR 0x60, CHR 0x60] @
     '' is Real News or Fake News.\<newline>'' @
     ''\<newline>'' @
     ''### Final Decision:  \<newline>'' @
     ''- If the above news is Real News then output *TRUE* else output *FALSE*.\<newline>'' @
     ''\<newline>'' @
     ''Provide your reasoning along with the final answer and include the source URL of the data.\<newline>''"

text \<open>
  The loop of \<open>evaluate_assertions\<close> over the items of \<open>results_dict\<close>, with the list
  \<open>eval_response_list\<close> built so far. An exception of the first \<^verbatim>\<open>try\<close> block other than
  IndexError and KeyError is not caught and ends the function.
\<close>

fun evaluate_loop ::
  "'w services \<Rightarrow> string \<Rightarrow> (string \<times> pyval) list \<Rightarrow> string list \<Rightarrow> 'w \<Rightarrow>
     (py_exn + string list) \<times> 'w \<times> event list" where
  "evaluate_loop sv user_input [] eval_response_list w = (Inr eval_response_list, w, [])"
| "evaluate_loop sv user_input ((statement, context) # items) eval_response_list w =
     (if \<not> py_truthy context then
        (let ev = [Logging_warning (''No results found for assertion: '' @ str_strip statement),
                   St_warning (''No search results found for '' @ [CHR 0x27] @ str_strip statement @
                               [CHR 0x27] @ ''.'')];
             (r, w', ev') = evaluate_loop sv user_input items eval_response_list w
         in (r, w', ev @ ev'))
      else
        (case first_record_fields context of
           Inl e \<Rightarrow>
             (if e = IndexError \<or> e = KeyError then
                (let ev = [Logging_error
                             (''Error processing context for '' @ [CHR 0x27] @ str_strip statement @
                              [CHR 0x27] @ '': '') e,
                           St_error (''Error processing context for '' @ [CHR 0x27] @
                                     str_strip statement @ [CHR 0x27] @ ''.'')];
                     (r, w', ev') = evaluate_loop sv user_input items eval_response_list w
                 in (r, w', ev @ ev'))
              else (Inl e, w, []))
         | Inr (title, content, url) \<Rightarrow>
             (let prompt = evaluation_prompt statement content user_input;
                  (eval_response, w1) = generate_content_async sv model_eval prompt w;
                  failed = (\<lambda>e.
                    [Logging_error
                       (''Error generating evaluation for assertion '' @ [CHR 0x27] @
                        str_strip statement @ [CHR 0x27] @ '': '') e,
                     St_error (''Failed to evaluate assertion '' @ [CHR 0x27] @
                               str_strip statement @ [CHR 0x27] @ ''.'')]);
                  expander = St_expander (''Evaluation for assertion: '' @ str_strip statement)
              in case eval_response of
                   Inl e \<Rightarrow>
                     (let (r, w', ev') = evaluate_loop sv user_input items eval_response_list w1
                      in (r, w', Llm_call model_eval prompt # failed e @ ev'))
                 | Inr (Inl e) \<Rightarrow>
                     (let (r, w', ev') = evaluate_loop sv user_input items eval_response_list w1
                      in (r, w', Llm_call model_eval prompt # expander # failed e @ ev'))
                 | Inr (Inr text) \<Rightarrow>
                     (let ev = [Llm_call model_eval prompt, expander,
                                St_text_area ''Result''
                                  (str_strip text @ ''\<newline>\<newline>Source URL: '' @ url),
                                Sleep 1];
                          (r, w', ev') =
                            evaluate_loop sv user_input items (eval_response_list @ [str_strip text]) w1
                      in (r, w', ev @ ev')))))"

definition evaluate_assertions ::
  "'w services \<Rightarrow> string \<Rightarrow> (string \<times> pyval) list \<Rightarrow> 'w \<Rightarrow>
     (py_exn + string list) \<times> 'w \<times> event list" where
  "evaluate_assertions sv user_input results_dict w =
     (let (r, w', ev) = evaluate_loop sv user_input results_dict [] w
      in (r, w',
          [St_info ''Evaluating each key assumption...'', St_empty] @ ev @
          (case r of Inr _ \<Rightarrow> [St_success ''All key assumptions evaluated.''] | Inl _ \<Rightarrow> [])))"

definition synthesis_prompt :: "string \<Rightarrow> string" where
  "synthesis_prompt combined_text =
     ''\<newline>'' @
     ''General Prompt:\<newline>'' @
     ''\<newline>'' @
     ''You are provided with a list of reasoning steps, where each step includes its chain-of-thought and a preliminary conclusion \<newline>'' @
     ''regarding the veracity of a news item (either '' @ [CHR 0x22] @ ''FAKE'' @ [CHR 0x22] @
     '' or '' @ [CHR 0x22] @ ''REAL'' @ [CHR 0x22] @
     ''). Your task is to synthesize these individual steps into a cohesive \<newline>'' @
     ''overall reasoning narrative, and provide a final verdict on whether the news is FAKE or REAL.\<newline>'' @
     ''\<newline>'' @
     ''Instructions:\<newline>'' @
     ''\<newline>'' @
     ''1. Read and understand each reasoning step below.\<newline>'' @
     ''2. Extract key evidence and conclusions.\<newline>'' @
     ''3. Combine these pieces into a single comprehensive chain-of-thought.\<newline>'' @
     ''4. Decide if the news is FAKE or REAL.\<newline>'' @
     ''5. Clearly justify your final decision in the combined narrative.\<newline>'' @
     ''6. Write the reasoning in such a way that people can easly understand.\<newline>'' @
     ''\<newline>'' @
     ''Output Format:\<newline>'' @
     ''Your final output should contain two sections:\<newline>'' @
     ''Overall Reasoning: A detailed explanation that synthesizes the evidence and logic.\<newline>'' @
     ''Final Result: A clear statement indicating either '' @ [CHR 0x22] @ ''FAKE'' @ [CHR 0x22] @
     '' or '' @ [CHR 0x22] @ ''REAL'' @ [CHR 0x22] @ ''.\<newline>'' @
     ''\<newline>'' @
     ''Example Output:\<newline>'' @
     ''\<newline>'' @
     ''Final Result: [FAKE or REAL]\<newline>'' @
     ''\<newline>'' @
     ''Overall Reasoning: [Detailed explanation combining evidence and reasoning.]\<newline>'' @
     ''\<newline>'' @
     ''Reasoning Steps:\<newline>'' @
     combined_text @
     ''\<newline>''"

text \<open>
  \<open>asyncprocess_and_evaluate\<close>: one call of the model, not guarded; an exception of the
  call or of reading the text leaves the function.
\<close>

definition asyncprocess_and_evaluate ::
  "'w services \<Rightarrow> string list \<Rightarrow> 'w \<Rightarrow> (py_exn + string) \<times> 'w \<times> event list" where
  "asyncprocess_and_evaluate sv reasoning_list w =
     (let combined_text = str_join ''\<newline>\<newline>'' reasoning_list;
          prompt = synthesis_prompt combined_text;
          (final_result, w') = generate_content_async sv model_eval prompt w
      in (bind_exn (bind_exn final_result (\<lambda>r. r)) (\<lambda>text. Inr (str_strip text)), w',
          [St_spinner ''Synthesizing overall evaluation...'', Llm_call model_eval prompt]))"

definition process_user_input ::
  "'w services \<Rightarrow> string \<Rightarrow> 'w \<Rightarrow>
     (py_exn + string \<times> (string \<times> pyval) list) \<times> 'w \<times> event list" where
  "process_user_input sv user_input w =
     (let (assertions_list, w1, ev1) = generate_assertions sv user_input w
      in if assertions_list = [] then
           (Inr (''No assertions generated. Cannot proceed.'', []), w1, ev1)
         else
           (let (results_dict, w2, ev2) = fetch_all_results sv assertions_list w1;
                (eval_results, w3, ev3) = evaluate_assertions sv user_input results_dict w2
            in case eval_results of
                 Inl e \<Rightarrow> (Inl e, w3, ev1 @ ev2 @ ev3)
               | Inr reasoning \<Rightarrow>
                   (let (final_evaluation, w4, ev4) = asyncprocess_and_evaluate sv reasoning w3
                    in (bind_exn final_evaluation (\<lambda>text. Inr (text, results_dict)), w4,
                        ev1 @ ev2 @ ev3 @ ev4))))"


section \<open>Observations on traces and sample services\<close>

text \<open>The events that are calls of the language model.\<close>

fun is_llm_call :: "event \<Rightarrow> bool" where
  "is_llm_call (Llm_call m prompt) = True"
| "is_llm_call e = False"

text \<open>The events that are searches.\<close>

fun is_search_call :: "event \<Rightarrow> bool" where
  "is_search_call (Search_call query) = True"
| "is_search_call e = False"

text \<open>
  The two messages of the \<^verbatim>\<open>except (IndexError, KeyError)\<close> branch of
  \<open>evaluate_assertions\<close> both start with \<open>Error processing context for\<close>.
\<close>

fun context_error_event :: "event \<Rightarrow> bool" where
  "context_error_event (Logging_error msg e) = prefix ''Error processing context for '' msg"
| "context_error_event (St_error msg) = prefix ''Error processing context for '' msg"
| "context_error_event e = False"

text \<open>A dictionary value.\<close>

fun is_dict :: "pyval \<Rightarrow> bool" where
  "is_dict (PDict d) = True"
| "is_dict v = False"

text \<open>
  Sample services for concrete runs; the state of the outside world counts the calls
  made so far.
  \<^item> \<open>failing_services\<close>: the model raises; the search raises when the number of calls
    made before is even, and answers with one record otherwise.
  \<^item> \<open>blank_services\<close>: the model answers with white space only.
  \<^item> \<open>markup_services\<close>: the model answers with a bullet line, an empty line, a
    bullet line with an asterisk inside, and a bullet alone.
  \<^item> \<open>bullet_services\<close>: the model answers with a bullet line; the search answers with
    one record that carries the number of the call.
\<close>

definition failing_services :: "nat services" where
  "failing_services =
     \<lparr>generate_content_async = (\<lambda>m prompt w. (Inl (OtherException ''quota exceeded''), Suc w)),
      tavily_search =
        (\<lambda>query w.
           (if even w then Inl (OtherException ''connection refused'')
            else Inr (PDict [(''results'', PList [PDict [(''content'', PStr query)]])]),
            Suc w))\<rparr>"

definition blank_services :: "nat services" where
  "blank_services =
     \<lparr>generate_content_async = (\<lambda>m prompt w. (Inr (Inr '' \<newline>  ''), Suc w)),
      tavily_search = (\<lambda>query w. (Inr (PDict []), Suc w))\<rparr>"

definition markup_services :: "nat services" where
  "markup_services =
     \<lparr>generate_content_async =
        (\<lambda>m prompt w.
           (Inr (Inr ''* Does elon musk own deepseek?\<newline>\<newline>* Is 2*3=6?\<newline>*''), Suc w)),
      tavily_search = (\<lambda>query w. (Inr (PDict []), Suc w))\<rparr>"

definition bullet_services :: "nat services" where
  "bullet_services =
     \<lparr>generate_content_async =
        (\<lambda>m prompt w. (Inr (Inr ''* Does elon musk own deepseek?\<newline>''), Suc w)),
      tavily_search =
        (\<lambda>query w.
           (Inr (PDict [(''results'',
                   PList [PDict [(''title'', PStr ''t''), (''url'', PStr ''u''),
                                 (''content'', PInt (int w))]])]),
            Suc w))\<rparr>"


section \<open>Properties of the string functions\<close>

lemma re_search_iff_sublist: "re_search pat s \<longleftrightarrow> sublist pat s"
  by (induction s) (auto simp: sublist_Cons_right)

lemma lower_char_idem: "lower_char (lower_char c) = lower_char c"
  by (auto simp: lower_char_def split: option.splits if_splits)

lemma str_lower_idem: "str_lower (str_lower s) = str_lower s"
  by (simp add: str_lower_def lower_char_idem)

lemma sublist_lower_append:
  "str_lower m = pat \<Longrightarrow> sublist pat (str_lower (pre @ m @ post))"
  by (auto simp: str_lower_def sublist_def)

section \<open>Verdict extraction: the claims\<close>

text \<open>
  Claim C1. Verdict extraction depends on the text only through its lower-cased form and
  matches anywhere in it: when the lower-cased text contains \<open>final result: fake\<close> the
  result is \<open>FAKE\<close>; otherwise, when it contains \<open>final result: real\<close>, the result is
  \<open>REAL\<close>; a text with neither marker gives \<^verbatim>\<open>None\<close>, the unknown verdict. Two texts
  that differ only in letter case get the same verdict, and a marker in any letter case
  is found whatever stands before and after it.
\<close>

theorem check_result_case_insensitive:
  "check_result text =
     (if sublist ''final result: fake'' (str_lower text) then Some ''FAKE''
      else if sublist ''final result: real'' (str_lower text) then Some ''REAL''
      else None)
   \<and> (\<forall>text'. str_lower text' = str_lower text \<longrightarrow> check_result text' = check_result text)
   \<and> (\<forall>pre post. str_lower text = ''final result: fake'' \<longrightarrow>
          check_result (pre @ text @ post) = Some ''FAKE'')
   \<and> (\<forall>pre post. str_lower text = ''final result: real'' \<and>
          \<not> sublist ''final result: fake'' (str_lower (pre @ text @ post)) \<longrightarrow>
          check_result (pre @ text @ post) = Some ''REAL'')"
proof -
  have eq: "\<And>t. check_result t =
     (if sublist ''final result: fake'' (str_lower t) then Some ''FAKE''
      else if sublist ''final result: real'' (str_lower t) then Some ''REAL''
      else None)"
    by (simp add: check_result_def Let_def re_search_iff_sublist)
  have same: "\<And>t'. str_lower t' = str_lower text \<Longrightarrow> check_result t' = check_result text"
    by (simp add: eq)
  have fake: "\<And>pre post. str_lower text = ''final result: fake'' \<Longrightarrow>
      check_result (pre @ text @ post) = Some ''FAKE''"
    using sublist_lower_append [of "text" "''final result: fake''"] by (simp add: eq)
  have real: "\<And>pre post. str_lower text = ''final result: real'' \<Longrightarrow>
      \<not> sublist ''final result: fake'' (str_lower (pre @ text @ post)) \<Longrightarrow>
      check_result (pre @ text @ post) = Some ''REAL''"
    using sublist_lower_append [of "text" "''final result: real''"] by (simp add: eq)
  show ?thesis using eq same fake real by blast
qed

theorem check_result_case_insensitive_witness:
  "check_result ''FINAL RESULT: Fake'' = Some ''FAKE''
   \<and> check_result ''final result: fake'' = check_result ''FINAL RESULT: Fake''
   \<and> check_result (''Verdict. '' @ ''FINAL RESULT: Fake'' @ '' (sure)'') = Some ''FAKE''
   \<and> check_result ''no marker here'' = None"
proof -
  have l: "str_lower ''final result: fake'' = str_lower ''FINAL RESULT: Fake''"
    by (simp add: str_lower_def lower_char_def)
  have m: "str_lower ''FINAL RESULT: Fake'' = ''final result: fake''"
    by (simp add: str_lower_def lower_char_def)
  have s: "sublist ''final result: fake'' (str_lower ''FINAL RESULT: Fake'')"
    by (simp add: m)
  have n1: "\<not> sublist ''final result: fake'' (str_lower ''no marker here'')"
    unfolding re_search_iff_sublist [symmetric] by (simp add: str_lower_def lower_char_def)
  have n2: "\<not> sublist ''final result: real'' (str_lower ''no marker here'')"
    unfolding re_search_iff_sublist [symmetric] by (simp add: str_lower_def lower_char_def)
  note t = check_result_case_insensitive [of "''FINAL RESULT: Fake''"]
  note u = check_result_case_insensitive [of "''no marker here''"]
  have a: "check_result ''FINAL RESULT: Fake'' = Some ''FAKE''"
    using t s by simp
  have b: "check_result ''final result: fake'' = check_result ''FINAL RESULT: Fake''"
    using t l by blast
  have c: "check_result (''Verdict. '' @ ''FINAL RESULT: Fake'' @ '' (sure)'') = Some ''FAKE''"
    using t m by blast
  have d: "check_result ''no marker here'' = None"
    using u n1 n2 by simp
  show ?thesis using a b c d by blast
qed

text \<open>
  Claim C4. A text that contains both markers (in any letter case) is \<open>FAKE\<close>: the
  \<open>FAKE\<close> pattern is tried first.
\<close>

theorem check_result_prefers_fake:
  "sublist ''final result: fake'' (str_lower text) \<Longrightarrow>
   sublist ''final result: real'' (str_lower text) \<Longrightarrow>
   check_result text = Some ''FAKE''"
  by (simp add: check_result_def Let_def re_search_iff_sublist)

theorem check_result_prefers_fake_witness:
  "sublist ''final result: fake'' (str_lower ''Final Result: REAL. Final Result: FAKE'')
   \<and> sublist ''final result: real'' (str_lower ''Final Result: REAL. Final Result: FAKE'')
   \<and> check_result ''Final Result: REAL. Final Result: FAKE'' = Some ''FAKE''"
proof -
  have f: "sublist ''final result: fake'' (str_lower ''Final Result: REAL. Final Result: FAKE'')"
    unfolding re_search_iff_sublist [symmetric] by (simp add: str_lower_def lower_char_def)
  have r: "sublist ''final result: real'' (str_lower ''Final Result: REAL. Final Result: FAKE'')"
    unfolding re_search_iff_sublist [symmetric] by (simp add: str_lower_def lower_char_def)
  show ?thesis using f r check_result_prefers_fake [OF f r] by blast
qed

section \<open>The orchestration: the claims\<close>

lemma model_neq_model_eval: "model \<noteq> model_eval"
  by (simp add: model_def model_eval_def)

lemma generate_assertions_events:
  "e \<in> set (snd (snd (generate_assertions sv user_input w))) \<Longrightarrow>
     \<not> is_search_call e \<and> (is_llm_call e \<longrightarrow> e = Llm_call model (create_template user_input))
     \<and> e \<noteq> St_spinner ''Retrieving online verification results...''
     \<and> e \<noteq> St_info ''Evaluating each key assumption...''
     \<and> e \<noteq> St_spinner ''Synthesizing overall evaluation...''"
  by (auto simp: generate_assertions_def Let_def split: prod.splits sum.splits)

text \<open>
  Claim C2. When \<open>generate_assertions\<close> returns the empty list, \<open>process_user_input\<close>
  returns the fixed message with an empty mapping, and its final state of the outside
  world and its events are those of \<open>generate_assertions\<close> alone: no search is made, the
  only call of a model is the generator's, and none of the opening events of
  \<open>fetch_all_results\<close>, \<open>evaluate_assertions\<close> and \<open>asyncprocess_and_evaluate\<close> occurs.
\<close>

theorem process_user_input_no_assertions:
  "fst (generate_assertions sv user_input w) = [] \<Longrightarrow>
     process_user_input sv user_input w =
       (Inr (''No assertions generated. Cannot proceed.'', []),
        snd (generate_assertions sv user_input w))
     \<and> (\<forall>e \<in> set (snd (snd (process_user_input sv user_input w))).
           \<not> is_search_call e
           \<and> (is_llm_call e \<longrightarrow> e = Llm_call model (create_template user_input))
           \<and> e \<noteq> St_spinner ''Retrieving online verification results...''
           \<and> e \<noteq> St_info ''Evaluating each key assumption...''
           \<and> e \<noteq> St_spinner ''Synthesizing overall evaluation...'')"
proof -
  assume a: "fst (generate_assertions sv user_input w) = []"
  have p: "process_user_input sv user_input w =
       (Inr (''No assertions generated. Cannot proceed.'', []),
        snd (generate_assertions sv user_input w))"
    using a by (cases "generate_assertions sv user_input w") (simp add: process_user_input_def)
  show ?thesis
    unfolding p using generate_assertions_events [of _ sv user_input w] by simp
qed


theorem process_user_input_no_assertions_witness:
  "fst (generate_assertions blank_services ''x'' 0) = []
   \<and> process_user_input blank_services ''x'' 0 =
       (Inr (''No assertions generated. Cannot proceed.'', []), Suc 0,
        [St_spinner ''Identifying key assumptions for verification...'',
         Llm_call model (create_template ''x''),
         St_success ''Key assumptions identified.''])
   \<and> Search_call ''x'' \<notin> set (snd (snd (process_user_input blank_services ''x'' 0)))"
proof -
  have g: "generate_assertions blank_services ''x'' 0 =
      ([], Suc 0,
       [St_spinner ''Identifying key assumptions for verification...'',
        Llm_call model (create_template ''x''),
        St_success ''Key assumptions identified.''])"
    by (simp add: generate_assertions_def blank_services_def str_strip_def is_space_def
        str_splitlines_def)
  have h: "fst (generate_assertions blank_services ''x'' 0) = []"
    by (simp add: g)
  note t = process_user_input_no_assertions [OF h]
  have p: "process_user_input blank_services ''x'' 0 =
       (Inr (''No assertions generated. Cannot proceed.'', []),
        snd (generate_assertions blank_services ''x'' 0))"
    using t by (rule conjunct1)
  have b: "\<forall>e \<in> set (snd (snd (process_user_input blank_services ''x'' 0))).
           \<not> is_search_call e
           \<and> (is_llm_call e \<longrightarrow> e = Llm_call model (create_template ''x''))
           \<and> e \<noteq> St_spinner ''Retrieving online verification results...''
           \<and> e \<noteq> St_info ''Evaluating each key assumption...''
           \<and> e \<noteq> St_spinner ''Synthesizing overall evaluation...''"
    using t by (rule conjunct2)
  have s: "Search_call ''x'' \<notin> set (snd (snd (process_user_input blank_services ''x'' 0)))"
  proof
    assume "Search_call ''x'' \<in> set (snd (snd (process_user_input blank_services ''x'' 0)))"
    then have "\<not> is_search_call (Search_call ''x'')" using b by blast
    then show False by simp
  qed
  have q: "process_user_input blank_services ''x'' 0 =
       (Inr (''No assertions generated. Cannot proceed.'', []), Suc 0,
        [St_spinner ''Identifying key assumptions for verification...'',
         Llm_call model (create_template ''x''),
         St_success ''Key assumptions identified.''])"
    using p by (simp only: g snd_conv)
  show ?thesis using h q s by (intro conjI)
qed

lemma process_user_input_empty:
  "generate_assertions sv user_input w = ([], w1, ev1) \<Longrightarrow>
     process_user_input sv user_input w =
       (Inr (''No assertions generated. Cannot proceed.'', []), w1, ev1)"
  by (simp add: process_user_input_def)

text \<open>
  Claim C6. When the call of the model in \<open>generate_assertions\<close> raises, or reading the
  text of its response raises, \<open>generate_assertions\<close> returns the empty list after that
  single call (the events show one call, the log entry and the error message), and
  \<open>process_user_input\<close> returns normally with the fixed message and an empty mapping.
\<close>

theorem generate_assertions_soft_failure:
  "fst (generate_content_async sv model (create_template user_input) w) = Inl e
   \<or> fst (generate_content_async sv model (create_template user_input) w) = Inr (Inl e) \<Longrightarrow>
     generate_assertions sv user_input w =
       ([], snd (generate_content_async sv model (create_template user_input) w),
        [St_spinner ''Identifying key assumptions for verification...'',
         Llm_call model (create_template user_input),
         Logging_error ''Error generating assertions: '' e,
         St_error ''Failed to identify assumptions.''])
     \<and> process_user_input sv user_input w =
       (Inr (''No assertions generated. Cannot proceed.'', []),
        snd (generate_content_async sv model (create_template user_input) w),
        [St_spinner ''Identifying key assumptions for verification...'',
         Llm_call model (create_template user_input),
         Logging_error ''Error generating assertions: '' e,
         St_error ''Failed to identify assumptions.''])"
proof -
  assume a: "fst (generate_content_async sv model (create_template user_input) w) = Inl e
   \<or> fst (generate_content_async sv model (create_template user_input) w) = Inr (Inl e)"
  have g: "generate_assertions sv user_input w =
       ([], snd (generate_content_async sv model (create_template user_input) w),
        [St_spinner ''Identifying key assumptions for verification...'',
         Llm_call model (create_template user_input),
         Logging_error ''Error generating assertions: '' e,
         St_error ''Failed to identify assumptions.''])"
    using a
    by (cases "generate_content_async sv model (create_template user_input) w")
       (auto simp: generate_assertions_def Let_def)
  show ?thesis using g process_user_input_empty [OF g] by simp
qed

theorem generate_assertions_soft_failure_witness:
  "fst (generate_content_async failing_services model (create_template ''x'') 0)
      = Inl (OtherException ''quota exceeded'')
   \<and> fst (generate_assertions failing_services ''x'' 0) = []
   \<and> filter is_llm_call (snd (snd (generate_assertions failing_services ''x'' 0)))
      = [Llm_call model (create_template ''x'')]
   \<and> fst (process_user_input failing_services ''x'' 0)
      = Inr (''No assertions generated. Cannot proceed.'', [])"
proof -
  have h: "fst (generate_content_async failing_services model (create_template ''x'') 0)
      = Inl (OtherException ''quota exceeded'')"
    by (simp add: failing_services_def)
  note t = generate_assertions_soft_failure [OF disjI1, OF h]
  show ?thesis using h t by simp
qed

lemma gather_fetch_append:
  "gather_fetch sv (xs @ ys) w =
     (let (rs1, w1, ev1) = gather_fetch sv xs w;
          (rs2, w2, ev2) = gather_fetch sv ys w1
      in (rs1 @ rs2, w2, ev1 @ ev2))"
  by (induction xs arbitrary: w) (auto simp: Let_def split: prod.splits)

lemma fetch_result_fst: "fst (fst (fetch_result sv assertion w)) = assertion"
  by (auto simp: fetch_result_def Let_def split: prod.splits sum.splits)

lemma gather_fetch_keys: "map fst (fst (gather_fetch sv assertions w)) = assertions"
proof (induction assertions arbitrary: w)
  case Nil
  then show ?case by simp
next
  case (Cons a as)
  obtain r w1 ev1 where f: "fetch_result sv a w = (r, w1, ev1)"
    by (cases "fetch_result sv a w") auto
  obtain rs w2 ev2 where g: "gather_fetch sv as w1 = (rs, w2, ev2)"
    by (cases "gather_fetch sv as w1") auto
  have "fst r = a" using fetch_result_fst [of sv a w] f by simp
  moreover have "map fst rs = as" using Cons.IH [of w1] g by simp
  ultimately show ?case using f g by simp
qed

text \<open>
  Claim C7. When the search for an assertion raises, \<open>fetch_result\<close> returns the pair of
  the assertion and the empty list. Inside the joint fetch the other assertions keep
  their own results: the list of results is that of the assertions before, the pair
  with the empty list, and that of the assertions after; and whatever fails, every
  assertion has its pair, in order.
\<close>

theorem fetch_result_soft_failure:
  "fst (tavily_search sv assertion w) = Inl e \<Longrightarrow>
     fetch_result sv assertion w =
       ((assertion, PList []), snd (tavily_search sv assertion w),
        [Search_call assertion,
         Logging_error
           (''Error fetching search results for '' @ [CHR 0x27] @ assertion @ [CHR 0x27] @ '': '')
           e])
     \<and> (\<forall>before after w0.
           fst (snd (gather_fetch sv before w0)) = w \<longrightarrow>
             fst (gather_fetch sv (before @ assertion # after) w0) =
               fst (gather_fetch sv before w0) @ (assertion, PList []) #
               fst (gather_fetch sv after (snd (tavily_search sv assertion w))))
     \<and> (\<forall>assertions w0. map fst (fst (gather_fetch sv assertions w0)) = assertions)"
proof -
  assume a: "fst (tavily_search sv assertion w) = Inl e"
  have f: "fetch_result sv assertion w =
       ((assertion, PList []), snd (tavily_search sv assertion w),
        [Search_call assertion,
         Logging_error
           (''Error fetching search results for '' @ [CHR 0x27] @ assertion @ [CHR 0x27] @ '': '')
           e])"
    using a by (cases "tavily_search sv assertion w") (simp add: fetch_result_def)
  have g: "fst (gather_fetch sv (before @ assertion # after) w0) =
               fst (gather_fetch sv before w0) @ (assertion, PList []) #
               fst (gather_fetch sv after (snd (tavily_search sv assertion w)))"
    if b: "fst (snd (gather_fetch sv before w0)) = w" for before after w0
  proof -
    obtain rs1 ev1 where b1: "gather_fetch sv before w0 = (rs1, w, ev1)"
      using b by (cases "gather_fetch sv before w0") auto
    obtain rs2 w2 ev2 where b2:
      "gather_fetch sv after (snd (tavily_search sv assertion w)) = (rs2, w2, ev2)"
      by (cases "gather_fetch sv after (snd (tavily_search sv assertion w))") auto
    show ?thesis by (simp add: gather_fetch_append b1 b2 f)
  qed
  show ?thesis
  proof (intro conjI allI impI)
    show "fetch_result sv assertion w =
       ((assertion, PList []), snd (tavily_search sv assertion w),
        [Search_call assertion,
         Logging_error
           (''Error fetching search results for '' @ [CHR 0x27] @ assertion @ [CHR 0x27] @ '': '')
           e])"
      by (rule f)
  next
    fix before after w0
    assume "fst (snd (gather_fetch sv before w0)) = w"
    then show "fst (gather_fetch sv (before @ assertion # after) w0) =
               fst (gather_fetch sv before w0) @ (assertion, PList []) #
               fst (gather_fetch sv after (snd (tavily_search sv assertion w)))"
      by (rule g)
  next
    fix assertions w0
    show "map fst (fst (gather_fetch sv assertions w0)) = assertions"
      by (rule gather_fetch_keys)
  qed
qed

theorem fetch_result_soft_failure_witness:
  "fst (tavily_search failing_services ''q'' (Suc (Suc 0)))
     = Inl (OtherException ''connection refused'')
   \<and> fst (fetch_result failing_services ''q'' (Suc (Suc 0))) = (''q'', PList [])
   \<and> fst (gather_fetch failing_services [''p'', ''q'', ''r''] (Suc 0)) =
       [(''p'', PList [PDict [(''content'', PStr ''p'')]]),
        (''q'', PList []),
        (''r'', PList [PDict [(''content'', PStr ''r'')]])]"
proof -
  have h: "fst (tavily_search failing_services ''q'' (Suc (Suc 0)))
      = Inl (OtherException ''connection refused'')"
    by (simp add: failing_services_def)
  note t = fetch_result_soft_failure [OF h]
  have p: "gather_fetch failing_services [''p''] (Suc 0) =
      ([(''p'', PList [PDict [(''content'', PStr ''p'')]])], Suc (Suc 0), [Search_call ''p''])"
    by (simp add: failing_services_def fetch_result_def)
  have r: "gather_fetch failing_services [''r''] (Suc (Suc (Suc 0))) =
      ([(''r'', PList [PDict [(''content'', PStr ''r'')]])], Suc (Suc (Suc (Suc 0))),
       [Search_call ''r''])"
    by (simp add: failing_services_def fetch_result_def)
  have s: "snd (tavily_search failing_services ''q'' (Suc (Suc 0))) = Suc (Suc (Suc 0))"
    by (simp add: failing_services_def)
  have w: "fst (snd (gather_fetch failing_services [''p''] (Suc 0))) = Suc (Suc 0)"
    by (simp only: p fst_conv snd_conv)
  have g: "fst (gather_fetch failing_services ([''p''] @ ''q'' # [''r'']) (Suc 0)) =
       fst (gather_fetch failing_services [''p''] (Suc 0)) @ (''q'', PList []) #
       fst (gather_fetch failing_services [''r'']
             (snd (tavily_search failing_services ''q'' (Suc (Suc 0)))))"
    using t w by blast
  have g': "fst (gather_fetch failing_services [''p'', ''q'', ''r''] (Suc 0)) =
       [(''p'', PList [PDict [(''content'', PStr ''p'')]]),
        (''q'', PList []),
        (''r'', PList [PDict [(''content'', PStr ''r'')]])]"
    using g by (simp only: p r s fst_conv snd_conv append.simps)
  have f: "fst (fetch_result failing_services ''q'' (Suc (Suc 0))) = (''q'', PList [])"
    using t by simp
  show ?thesis using h f g' by (intro conjI)
qed

section \<open>The evidence mapping: the claims\<close>

lemma dict_of_pairs_snoc:
  "dict_of_pairs (rs @ [(k, v)]) = AList.update k v (dict_of_pairs rs)"
  by (simp add: dict_of_pairs_def)

lemma dict_of_pairs_keys:
  "map fst (dict_of_pairs rs) = rev (remdups (rev (map fst rs)))"
proof (induction rs rule: rev_induct)
  case Nil
  then show ?case by (simp add: dict_of_pairs_def)
next
  case (snoc r rs)
  obtain k v where r: "r = (k, v)" by (cases r)
  have s: "set (map fst (dict_of_pairs rs)) = fst ` set rs"
    by (simp add: snoc.IH)
  show ?case
    unfolding r dict_of_pairs_snoc update_keys s
    by (simp add: snoc.IH)
qed

lemma first_occurrences_subseq: "subseq (rev (remdups (rev xs))) xs"
proof (induction xs rule: rev_induct)
  case Nil
  then show ?case by simp
next
  case (snoc x xs)
  show ?case
  proof (cases "x \<in> set xs")
    case True
    then show ?thesis using snoc.IH by (simp add: subseq_rev_drop_many)
  next
    case False
    then show ?thesis using snoc.IH by simp
  qed
qed

lemma dict_of_pairs_lookup:
  "a \<in> fst ` set rs \<Longrightarrow>
     map_of (dict_of_pairs rs) a = Some (snd (last (filter (\<lambda>r. fst r = a) rs)))"
proof (induction rs rule: rev_induct)
  case Nil
  then show ?case by simp
next
  case (snoc r rs)
  obtain k v where r: "r = (k, v)" by (cases r)
  show ?case
  proof (cases "a = k")
    case True
    then show ?thesis by (simp add: r dict_of_pairs_snoc update_conv')
  next
    case False
    then have "a \<in> fst ` set rs" using snoc.prems by (auto simp: r)
    then show ?thesis using False snoc.IH by (simp add: r dict_of_pairs_snoc update_conv')
  qed
qed

lemma fetch_all_results_dict:
  "fst (fetch_all_results sv assertions w) = dict_of_pairs (fst (gather_fetch sv assertions w))"
  by (simp add: fetch_all_results_def split: prod.splits)

lemma fetch_all_results_keys:
  "map fst (fst (fetch_all_results sv assertions w)) = rev (remdups (rev assertions))"
  by (simp add: fetch_all_results_dict dict_of_pairs_keys gather_fetch_keys)

text \<open>
  Claim C3. The keys of the mapping built by \<open>fetch_all_results\<close> are the generated
  assertions in the order of their first occurrence: they form a subsequence of the
  assertion list (nothing is added or reordered), every key is one of the assertions
  and every assertion is a key, and no key occurs twice.
\<close>

theorem fetch_all_results_keys_ordered:
  "map fst (fst (fetch_all_results sv assertions w)) = rev (remdups (rev assertions))
   \<and> subseq (map fst (fst (fetch_all_results sv assertions w))) assertions
   \<and> set (map fst (fst (fetch_all_results sv assertions w))) = set assertions
   \<and> distinct (map fst (fst (fetch_all_results sv assertions w)))"
  unfolding fetch_all_results_keys
  by (simp add: first_occurrences_subseq)

lemma distinct_keys_once:
  "distinct (map fst d) \<Longrightarrow> a \<in> fst ` set d \<Longrightarrow> length (filter (\<lambda>kv. fst kv = a) d) = Suc 0"
  by (induction d) (auto simp: image_iff filter_empty_conv)

text \<open>
  Claim C9. Duplicate assertions collapse into one key: every assertion has exactly one
  entry, whose value is the result of its last fetch in the list of results; the
  mapping has as many entries as there are different assertions, and strictly fewer than
  the assertion list has elements when an assertion is repeated.
\<close>

theorem fetch_all_results_duplicates:
  "(\<forall>a \<in> set assertions.
      map_of (fst (fetch_all_results sv assertions w)) a =
        Some (snd (last (filter (\<lambda>r. fst r = a) (fst (gather_fetch sv assertions w)))))
      \<and> length (filter (\<lambda>kv. fst kv = a) (fst (fetch_all_results sv assertions w))) = 1)
   \<and> length (fst (fetch_all_results sv assertions w)) = card (set assertions)
   \<and> length (fst (fetch_all_results sv assertions w)) \<le> length assertions
   \<and> (\<not> distinct assertions \<longrightarrow>
        length (fst (fetch_all_results sv assertions w)) < length assertions)"
proof -
  let ?d = "fst (fetch_all_results sv assertions w)"
  let ?rs = "fst (gather_fetch sv assertions w)"
  have keys: "map fst ?d = rev (remdups (rev assertions))"
    by (rule fetch_all_results_keys)
  have len: "length ?d = card (set assertions)"
  proof -
    have "length ?d = length (map fst ?d)" by simp
    also have "\<dots> = card (set assertions)"
      unfolding keys by (simp add: length_remdups_card_conv)
    finally show ?thesis .
  qed
  have le: "length ?d \<le> length assertions"
    unfolding len by (rule card_length)
  have lt: "length ?d < length assertions" if "\<not> distinct assertions"
  proof -
    have "card (set assertions) \<noteq> length assertions"
      using that card_distinct by blast
    then show ?thesis using le len by simp
  qed
  have look: "map_of ?d a = Some (snd (last (filter (\<lambda>r. fst r = a) ?rs)))
      \<and> length (filter (\<lambda>kv. fst kv = a) ?d) = 1" if a: "a \<in> set assertions" for a
  proof -
    have "a \<in> set (map fst ?rs)" using a by (simp only: gather_fetch_keys)
    then have m: "a \<in> fst ` set ?rs" by simp
    have dk: "distinct (map fst ?d)" unfolding keys by simp
    have "a \<in> set (map fst ?d)" unfolding keys using a by simp
    then have ak: "a \<in> fst ` set ?d" by simp
    show ?thesis
      using dict_of_pairs_lookup [OF m] distinct_keys_once [OF dk ak]
      by (simp add: fetch_all_results_dict)
  qed
  show ?thesis using look len le lt by blast
qed


theorem fetch_all_results_duplicates_witness:
  "''q'' \<in> set [''q'', ''q'']
   \<and> \<not> distinct [''q'', ''q'']
   \<and> fst (gather_fetch bullet_services [''q'', ''q''] 0) =
       [(''q'', PList [PDict [(''title'', PStr ''t''), (''url'', PStr ''u''), (''content'', PInt 0)]]),
        (''q'', PList [PDict [(''title'', PStr ''t''), (''url'', PStr ''u''), (''content'', PInt 1)]])]
   \<and> map_of (fst (fetch_all_results bullet_services [''q'', ''q''] 0)) ''q'' =
       Some (PList [PDict [(''title'', PStr ''t''), (''url'', PStr ''u''), (''content'', PInt 1)]])
   \<and> length (fst (fetch_all_results bullet_services [''q'', ''q''] 0)) < length [''q'', ''q'']"
proof -
  have m: "''q'' \<in> set [''q'', ''q'']" by simp
  have n: "\<not> distinct [''q'', ''q'']" by simp
  have g: "fst (gather_fetch bullet_services [''q'', ''q''] 0) =
       [(''q'', PList [PDict [(''title'', PStr ''t''), (''url'', PStr ''u''), (''content'', PInt 0)]]),
        (''q'', PList [PDict [(''title'', PStr ''t''), (''url'', PStr ''u''), (''content'', PInt 1)]])]"
    by (simp add: bullet_services_def fetch_result_def)
  note t = fetch_all_results_duplicates [of "[''q'', ''q'']" bullet_services 0]
  have a: "\<forall>a \<in> set [''q'', ''q''].
      map_of (fst (fetch_all_results bullet_services [''q'', ''q''] 0)) a =
        Some (snd (last (filter (\<lambda>r. fst r = a) (fst (gather_fetch bullet_services [''q'', ''q''] 0)))))
      \<and> length (filter (\<lambda>kv. fst kv = a) (fst (fetch_all_results bullet_services [''q'', ''q''] 0))) = 1"
    using t by (rule conjunct1)
  have l: "map_of (fst (fetch_all_results bullet_services [''q'', ''q''] 0)) ''q'' =
        Some (snd (last (filter (\<lambda>r. fst r = ''q'')
          (fst (gather_fetch bullet_services [''q'', ''q''] 0)))))"
    using a m by blast
  have l': "map_of (fst (fetch_all_results bullet_services [''q'', ''q''] 0)) ''q'' =
       Some (PList [PDict [(''title'', PStr ''t''), (''url'', PStr ''u''), (''content'', PInt 1)]])"
    unfolding l g by simp
  have s: "length (fst (fetch_all_results bullet_services [''q'', ''q''] 0)) < length [''q'', ''q'']"
    using t n by blast
  show ?thesis using m n g l' s by (intro conjI)
qed

section \<open>The evaluator: the claims\<close>

lemma evaluate_loop_skip:
  "fst (evaluate_loop sv ui (filter (\<lambda>(s, c). py_truthy c) items) acc w)
     = fst (evaluate_loop sv ui items acc w)
   \<and> fst (snd (evaluate_loop sv ui (filter (\<lambda>(s, c). py_truthy c) items) acc w))
     = fst (snd (evaluate_loop sv ui items acc w))
   \<and> filter is_llm_call (snd (snd (evaluate_loop sv ui (filter (\<lambda>(s, c). py_truthy c) items) acc w)))
     = filter is_llm_call (snd (snd (evaluate_loop sv ui items acc w)))"
proof (induction items arbitrary: acc w)
  case Nil
  then show ?case by simp
next
  case (Cons item items)
  obtain s c where item: "item = (s, c)" by (cases item)
  show ?case
  proof (cases "py_truthy c")
    case False
    then show ?thesis using Cons.IH [of acc w]
      by (simp add: item split_beta)
  next
    case True
    then show ?thesis using Cons.IH
      by (simp add: item split_beta Let_def split: sum.splits)
  qed
qed

lemma evaluate_loop_length:
  "fst (evaluate_loop sv ui items acc w) = Inr js \<Longrightarrow>
     length js \<le> length acc + length (filter (\<lambda>(s, c). py_truthy c) items)"
proof (induction items arbitrary: acc w)
  case Nil
  then show ?case by simp
next
  case (Cons item items)
  obtain s c where item: "item = (s, c)" by (cases item)
  show ?case
  proof (cases "py_truthy c")
    case False
    then show ?thesis using Cons.IH [of acc w] Cons.prems
      by (simp add: item split_beta)
  next
    case True
    then show ?thesis using Cons.prems
      by (auto simp: item split_beta Let_def split: sum.splits if_splits dest!: Cons.IH)
  qed
qed

lemma evaluate_loop_step_calls:
  "e \<in> set (snd (snd (evaluate_loop sv ui ((s, c) # items) acc w))) \<Longrightarrow> is_llm_call e \<Longrightarrow>
     (py_truthy c \<and>
       (\<exists>title content url. first_record_fields c = Inr (title, content, url)
          \<and> e = Llm_call model_eval (evaluation_prompt s content ui)))
     \<or> (\<exists>acc' w'. e \<in> set (snd (snd (evaluate_loop sv ui items acc' w'))))"
  by (auto simp: split_beta Let_def split: sum.splits if_splits)

lemma evaluate_loop_calls:
  "e \<in> set (snd (snd (evaluate_loop sv ui items acc w))) \<Longrightarrow> is_llm_call e \<Longrightarrow>
     \<exists>(s, c) \<in> set items. py_truthy c \<and>
       (\<exists>title content url. first_record_fields c = Inr (title, content, url)
          \<and> e = Llm_call model_eval (evaluation_prompt s content ui))"
proof (induction items arbitrary: acc w)
  case Nil
  then show ?case by simp
next
  case (Cons item items)
  obtain s c where item: "item = (s, c)" by (cases item)
  from evaluate_loop_step_calls [OF Cons.prems [unfolded item]]
  consider
    (head) "py_truthy c \<and>
       (\<exists>title content url. first_record_fields c = Inr (title, content, url)
          \<and> e = Llm_call model_eval (evaluation_prompt s content ui))"
  | (tail) acc' w' where "e \<in> set (snd (snd (evaluate_loop sv ui items acc' w')))"
    by blast
  then show ?case
  proof cases
    case head
    then show ?thesis by (simp add: item)
  next
    case tail
    from Cons.IH [OF tail Cons.prems(2)] show ?thesis by auto
  qed
qed

lemma evaluate_loop_call_count:
  "length (filter is_llm_call (snd (snd (evaluate_loop sv ui items acc w))))
     \<le> length (filter (\<lambda>(s, c). py_truthy c) items)"
proof (induction items arbitrary: acc w)
  case Nil
  then show ?case by simp
next
  case (Cons item items)
  obtain s c where item: "item = (s, c)" by (cases item)
  show ?case
  proof (cases "py_truthy c")
    case False
    then show ?thesis using Cons.IH [of acc w]
      by (simp add: item split_beta)
  next
    case True
    then show ?thesis using Cons.IH
      by (auto simp: item split_beta Let_def le_SucI split: sum.splits)
  qed
qed

lemma evaluate_assertions_proj:
  "fst (evaluate_assertions sv ui d w) = fst (evaluate_loop sv ui d [] w)"
  "fst (snd (evaluate_assertions sv ui d w)) = fst (snd (evaluate_loop sv ui d [] w))"
  "filter is_llm_call (snd (snd (evaluate_assertions sv ui d w)))
     = filter is_llm_call (snd (snd (evaluate_loop sv ui d [] w)))"
  by (simp_all add: evaluate_assertions_def split_beta split: sum.splits)

lemma evaluate_assertions_llm_events:
  "e \<in> set (snd (snd (evaluate_assertions sv ui d w))) \<Longrightarrow> is_llm_call e \<Longrightarrow>
     e \<in> set (snd (snd (evaluate_loop sv ui d [] w)))"
  by (auto simp: evaluate_assertions_def split_beta split: sum.splits)

text \<open>
  Claim C5. An assertion whose evidence is empty is skipped by \<open>evaluate_assertions\<close>:
  removing all such entries from the mapping changes neither the returned judgments,
  nor the final state of the outside world, nor the calls of the model. There are at
  most as many calls, and at most as many judgments, as there are assertions with
  evidence, and every call of the model carries the evaluation prompt of an assertion
  whose evidence is not empty.
\<close>

theorem evaluate_assertions_skips_empty:
  "fst (evaluate_assertions sv ui (filter (\<lambda>(s, c). py_truthy c) d) w)
     = fst (evaluate_assertions sv ui d w)
   \<and> fst (snd (evaluate_assertions sv ui (filter (\<lambda>(s, c). py_truthy c) d) w))
     = fst (snd (evaluate_assertions sv ui d w))
   \<and> filter is_llm_call (snd (snd (evaluate_assertions sv ui (filter (\<lambda>(s, c). py_truthy c) d) w)))
     = filter is_llm_call (snd (snd (evaluate_assertions sv ui d w)))
   \<and> length (filter is_llm_call (snd (snd (evaluate_assertions sv ui d w))))
     \<le> length (filter (\<lambda>(s, c). py_truthy c) d)
   \<and> (\<forall>e \<in> set (snd (snd (evaluate_assertions sv ui d w))). is_llm_call e \<longrightarrow>
        (\<exists>(s, c) \<in> set d. py_truthy c \<and>
           (\<exists>title content url. first_record_fields c = Inr (title, content, url)
              \<and> e = Llm_call model_eval (evaluation_prompt s content ui))))
   \<and> (\<forall>js. fst (evaluate_assertions sv ui d w) = Inr js \<longrightarrow>
        length js \<le> length (filter (\<lambda>(s, c). py_truthy c) d))"
proof (intro conjI ballI allI impI)
  show "fst (evaluate_assertions sv ui (filter (\<lambda>(s, c). py_truthy c) d) w)
     = fst (evaluate_assertions sv ui d w)"
    by (simp only: evaluate_assertions_proj evaluate_loop_skip)
  show "fst (snd (evaluate_assertions sv ui (filter (\<lambda>(s, c). py_truthy c) d) w))
     = fst (snd (evaluate_assertions sv ui d w))"
    by (simp only: evaluate_assertions_proj evaluate_loop_skip)
  show "filter is_llm_call (snd (snd (evaluate_assertions sv ui (filter (\<lambda>(s, c). py_truthy c) d) w)))
     = filter is_llm_call (snd (snd (evaluate_assertions sv ui d w)))"
    by (simp only: evaluate_assertions_proj evaluate_loop_skip)
  show "length (filter is_llm_call (snd (snd (evaluate_assertions sv ui d w))))
     \<le> length (filter (\<lambda>(s, c). py_truthy c) d)"
    by (simp only: evaluate_assertions_proj evaluate_loop_call_count)
next
  fix e
  assume "e \<in> set (snd (snd (evaluate_assertions sv ui d w)))" and c: "is_llm_call e"
  then have "e \<in> set (snd (snd (evaluate_loop sv ui d [] w)))"
    by (rule evaluate_assertions_llm_events)
  then show "\<exists>(s, c) \<in> set d. py_truthy c \<and>
           (\<exists>title content url. first_record_fields c = Inr (title, content, url)
              \<and> e = Llm_call model_eval (evaluation_prompt s content ui))"
    using c by (rule evaluate_loop_calls)
next
  fix js
  assume "fst (evaluate_assertions sv ui d w) = Inr js"
  then have "fst (evaluate_loop sv ui d [] w) = Inr js"
    by (simp only: evaluate_assertions_proj)
  from evaluate_loop_length [OF this]
  show "length js \<le> length (filter (\<lambda>(s, c). py_truthy c) d)" by simp
qed


theorem evaluate_assertions_skips_empty_witness:
  "fst (evaluate_assertions bullet_services ''x''
          [(''a'', PList []), (''b'', PList [PDict [(''content'', PStr ''c'')]])] 0)
     = Inr [''* Does elon musk own deepseek?'']
   \<and> Llm_call model_eval (evaluation_prompt ''b'' ''c'' ''x'')
       \<in> set (snd (snd (evaluate_assertions bullet_services ''x''
            [(''a'', PList []), (''b'', PList [PDict [(''content'', PStr ''c'')]])] 0)))
   \<and> fst (evaluate_assertions bullet_services ''x''
          (filter (\<lambda>(s, c). py_truthy c)
            [(''a'', PList []), (''b'', PList [PDict [(''content'', PStr ''c'')]])]) 0)
     = Inr [''* Does elon musk own deepseek?'']
   \<and> length (filter is_llm_call (snd (snd (evaluate_assertions bullet_services ''x''
          [(''a'', PList []), (''b'', PList [PDict [(''content'', PStr ''c'')]])] 0)))) \<le> 1
   \<and> length [''* Does elon musk own deepseek?'']
       \<le> length (filter (\<lambda>(s, c). py_truthy c)
            [(''a'', PList []), (''b'', PList [PDict [(''content'', PStr ''c'')]])])
   \<and> (\<exists>(s, c) \<in> set [(''a'', PList []), (''b'', PList [PDict [(''content'', PStr ''c'')]])].
         py_truthy c \<and>
         (\<exists>title content url. first_record_fields c = Inr (title, content, url)
            \<and> Llm_call model_eval (evaluation_prompt ''b'' ''c'' ''x'')
                = Llm_call model_eval (evaluation_prompt s content ''x'')))"
proof -
  let ?d = "[(''a'', PList []), (''b'', PList [PDict [(''content'', PStr ''c'')]])]"
  have f: "fst (evaluate_assertions bullet_services ''x'' ?d 0)
      = Inr [''* Does elon musk own deepseek?'']"
    by (simp add: evaluate_assertions_def bullet_services_def first_record_fields_def
        str_strip_def is_space_def)
  have m: "Llm_call model_eval (evaluation_prompt ''b'' ''c'' ''x'')
      \<in> set (snd (snd (evaluate_assertions bullet_services ''x'' ?d 0)))"
    by (simp add: evaluate_assertions_def bullet_services_def first_record_fields_def
        str_strip_def is_space_def)
  have c: "is_llm_call (Llm_call model_eval (evaluation_prompt ''b'' ''c'' ''x''))"
    by simp
  have n: "length (filter (\<lambda>(s, c). py_truthy c) ?d) = 1"
    by simp
  note t = evaluate_assertions_skips_empty [of bullet_services "''x''" ?d 0]
  have t1: "fst (evaluate_assertions bullet_services ''x'' (filter (\<lambda>(s, c). py_truthy c) ?d) 0)
      = fst (evaluate_assertions bullet_services ''x'' ?d 0)"
    using t by blast
  have t4: "length (filter is_llm_call (snd (snd (evaluate_assertions bullet_services ''x'' ?d 0))))
      \<le> length (filter (\<lambda>(s, c). py_truthy c) ?d)"
    using t by blast
  have t5: "\<exists>(s, c) \<in> set ?d. py_truthy c \<and>
         (\<exists>title content url. first_record_fields c = Inr (title, content, url)
            \<and> Llm_call model_eval (evaluation_prompt ''b'' ''c'' ''x'')
                = Llm_call model_eval (evaluation_prompt s content ''x''))"
    using t m c by blast
  have t6: "length [''* Does elon musk own deepseek?'']
      \<le> length (filter (\<lambda>(s, c). py_truthy c) ?d)"
    using t f by blast
  show ?thesis
    using f m t1 [unfolded f] t4 [unfolded n] t6 t5 by (intro conjI)
qed

lemma py_strip_error: "py_strip v = Inl e \<Longrightarrow> e = AttributeError"
  by (cases v) auto

lemma first_record_fields_dicts:
  assumes "\<forall>r \<in> set rs. is_dict r" and "py_truthy (PList rs)"
  shows "first_record_fields (PList rs) \<noteq> Inl IndexError
         \<and> first_record_fields (PList rs) \<noteq> Inl KeyError"
proof -
  obtain r rs' where rs: "rs = r # rs'" using assms(2) by (cases rs) auto
  then have "is_dict r" using assms(1) by simp
  then obtain kv where r: "r = PDict kv" by (cases r) auto
  let ?t = "py_strip (case map_of kv ''title'' of Some v \<Rightarrow> v | None \<Rightarrow> PStr [])"
  let ?c = "py_strip (case map_of kv ''content'' of Some v \<Rightarrow> v | None \<Rightarrow> PStr [])"
  let ?u = "py_strip (case map_of kv ''url'' of Some v \<Rightarrow> v | None \<Rightarrow> PStr [])"
  have e: "first_record_fields (PList rs) =
      bind_exn ?t (\<lambda>title. bind_exn ?c (\<lambda>content. bind_exn ?u (\<lambda>url. Inr (title, content, url))))"
    by (simp add: first_record_fields_def rs r)
  show ?thesis
    unfolding e
    by (cases ?t; cases ?c; cases ?u) (auto dest: py_strip_error)
qed

lemma evaluate_loop_step_context_error:
  "e \<in> set (snd (snd (evaluate_loop sv ui ((s, c) # items) acc w))) \<Longrightarrow> context_error_event e \<Longrightarrow>
     (py_truthy c \<and>
       (first_record_fields c = Inl IndexError \<or> first_record_fields c = Inl KeyError))
     \<or> (\<exists>acc' w'. e \<in> set (snd (snd (evaluate_loop sv ui items acc' w'))))"
  by (auto simp: split_beta Let_def split: sum.splits if_splits)

lemma evaluate_loop_no_context_error:
  "\<forall>(s, c) \<in> set items. \<exists>rs. c = PList rs \<and> (\<forall>r \<in> set rs. is_dict r) \<Longrightarrow>
   e \<in> set (snd (snd (evaluate_loop sv ui items acc w))) \<Longrightarrow> \<not> context_error_event e"
proof (induction items arbitrary: acc w)
  case Nil
  then show ?case by simp
next
  case (Cons item items)
  obtain s c where item: "item = (s, c)" by (cases item)
  obtain rs where c: "c = PList rs" and d: "\<forall>r \<in> set rs. is_dict r"
    using Cons.prems(1) by (auto simp: item)
  have tl: "\<forall>(s, c) \<in> set items. \<exists>rs. c = PList rs \<and> (\<forall>r \<in> set rs. is_dict r)"
    using Cons.prems(1) by simp
  show ?case
  proof
    assume ce: "context_error_event e"
    from evaluate_loop_step_context_error [OF Cons.prems(2) [unfolded item] ce]
    consider
      (head) "py_truthy c"
        "first_record_fields c = Inl IndexError \<or> first_record_fields c = Inl KeyError"
    | (tail) acc' w' where "e \<in> set (snd (snd (evaluate_loop sv ui items acc' w')))"
      by blast
    then show False
    proof cases
      case head
      then show ?thesis using first_record_fields_dicts [OF d] by (auto simp: c)
    next
      case tail
      from Cons.IH [OF tl tail] ce show ?thesis by simp
    qed
  qed
qed

text \<open>
  Claim C10. When every evidence value of the mapping is a list of dictionaries, reading
  title, content and url of the first record of a non-empty evidence list raises
  neither IndexError nor KeyError, and no run of \<open>evaluate_assertions\<close> emits an event
  of the \<^verbatim>\<open>except (IndexError, KeyError)\<close> branch.
\<close>

theorem context_error_branch_unreachable:
  "\<forall>(s, c) \<in> set d. \<exists>rs. c = PList rs \<and> (\<forall>r \<in> set rs. is_dict r) \<Longrightarrow>
     (\<forall>(s, c) \<in> set d. py_truthy c \<longrightarrow>
        first_record_fields c \<noteq> Inl IndexError \<and> first_record_fields c \<noteq> Inl KeyError)
     \<and> (\<forall>e \<in> set (snd (snd (evaluate_assertions sv ui d w))). \<not> context_error_event e)"
proof -
  assume a: "\<forall>(s, c) \<in> set d. \<exists>rs. c = PList rs \<and> (\<forall>r \<in> set rs. is_dict r)"
  have p1: "\<forall>(s, c) \<in> set d. py_truthy c \<longrightarrow>
        first_record_fields c \<noteq> Inl IndexError \<and> first_record_fields c \<noteq> Inl KeyError"
    using a first_record_fields_dicts by fastforce
  have p2: "\<not> context_error_event e"
    if e: "e \<in> set (snd (snd (evaluate_assertions sv ui d w)))" for e
  proof
    assume ce: "context_error_event e"
    have "e \<in> set (snd (snd (evaluate_loop sv ui d [] w)))"
      using e ce by (auto simp: evaluate_assertions_def split_beta split: sum.splits)
    from evaluate_loop_no_context_error [OF a this] ce show False by simp
  qed
  show ?thesis using p1 p2 by blast
qed

theorem context_error_branch_unreachable_witness:
  "is_dict (PDict [(''content'', PStr ''c'')])
   \<and> py_truthy (PList [PDict [(''content'', PStr ''c'')]])
   \<and> first_record_fields (PList [PDict [(''content'', PStr ''c'')]]) \<noteq> Inl KeyError
   \<and> St_error (''Error processing context for '' @ [CHR 0x27] @ ''b'' @ [CHR 0x27] @ ''.'')
       \<notin> set (snd (snd (evaluate_assertions bullet_services ''x''
              [(''b'', PList [PDict [(''content'', PStr ''c'')]])] 0)))"
proof -
  let ?d = "[(''b'', PList [PDict [(''content'', PStr ''c'')]])]"
  have h: "\<forall>(s, c) \<in> set ?d. \<exists>rs. c = PList rs \<and> (\<forall>r \<in> set rs. is_dict r)"
    by simp
  note t = context_error_branch_unreachable [OF h, of bullet_services "''x''" 0]
  have i: "is_dict (PDict [(''content'', PStr ''c'')])" by simp
  have y: "py_truthy (PList [PDict [(''content'', PStr ''c'')]])" by simp
  have k: "first_record_fields (PList [PDict [(''content'', PStr ''c'')]]) \<noteq> Inl KeyError"
    using t y by fastforce
  have ce: "context_error_event
      (St_error (''Error processing context for '' @ [CHR 0x27] @ ''b'' @ [CHR 0x27] @ ''.''))"
    by simp
  have n: "St_error (''Error processing context for '' @ [CHR 0x27] @ ''b'' @ [CHR 0x27] @ ''.'')
       \<notin> set (snd (snd (evaluate_assertions bullet_services ''x'' ?d 0)))"
    using t ce by blast
  show ?thesis using i y k n by (intro conjI)
qed

text \<open>
  Without that precondition the branch is taken: an evidence value that is a non-empty
  dictionary raises KeyError at \<^verbatim>\<open>context[0]\<close>.
\<close>

lemma context_error_branch_reachable:
  "St_error (''Error processing context for '' @ [CHR 0x27] @ ''b'' @ [CHR 0x27] @ ''.'')
     \<in> set (snd (snd (evaluate_assertions bullet_services ''x''
            [(''b'', PDict [(''content'', PStr ''c'')])] 0)))"
  by (simp add: evaluate_assertions_def first_record_fields_def str_strip_def is_space_def)

section \<open>The generator's post-processing: the claim\<close>

text \<open>
  A line is dropped exactly when it consists of white space only, and the lines of a
  text, put together, are the text without its boundary characters.
\<close>

lemma str_strip_empty_iff: "str_strip s = [] \<longleftrightarrow> list_all is_space s"
proof
  assume e: "str_strip s = []"
  show "list_all is_space s"
  proof (rule ccontr)
    assume "\<not> list_all is_space s"
    then have n: "dropWhile is_space s \<noteq> []"
      by (simp add: list_all_iff)
    then have "\<not> is_space (hd (dropWhile is_space s))"
      by (rule hd_dropWhile)
    moreover have "hd (dropWhile is_space s) \<in> set (rev (dropWhile is_space s))"
      using n by simp
    ultimately have "dropWhile is_space (rev (dropWhile is_space s)) \<noteq> []"
      by auto
    then show False using e by (simp add: str_strip_def)
  qed
next
  assume "list_all is_space s"
  then have d: "dropWhile is_space s = []"
    by (simp add: list_all_iff)
  show "str_strip s = []"
    unfolding str_strip_def d by simp
qed

lemma splitlines_from_concat:
  "concat (splitlines_from cur s) = rev cur @ filter (\<lambda>c. \<not> is_linebreak c) s"
  by (induction cur s rule: splitlines_from.induct) (auto simp: is_linebreak_def)

text \<open>The no-break space is white space, and next line is a line boundary.\<close>

lemma str_strip_no_break_space: "str_strip [CHR 0x20, CHR 0xA0] = []"
  by (simp add: str_strip_def is_space_def)

lemma str_splitlines_next_line:
  "str_splitlines (''* a'' @ [CHR 0x85] @ ''* b'') = [''* a'', ''* b'']"
  by (simp add: str_splitlines_def is_linebreak_def)

text \<open>
  Claim C8 says that each returned string is the line's content with leading bullet
  markers and surrounding white space removed. The code calls \<^verbatim>\<open>line.strip()\<close> before
  \<^verbatim>\<open>replace("*", "")\<close>, and the replacement deletes every asterisk. On an answer with
  the bullet lines \<open>* Does elon musk own deepseek?\<close>, \<open>* Is 2*3=6?\<close> and a bullet
  alone, the empty line is dropped, but the first string keeps the space that followed
  its bullet (it is not free of surrounding white space), the second loses the asterisk
  of its content, and the third is the empty string.
\<close>

theorem generate_assertions_bullet_slip:
  "fst (generate_assertions markup_services ''x'' 0)
     = ['' Does elon musk own deepseek?'', '' Is 23=6?'', []]
   \<and> str_strip '' Does elon musk own deepseek?'' \<noteq> '' Does elon musk own deepseek?''"
  by (simp add: generate_assertions_def markup_services_def str_strip_def is_space_def
      str_splitlines_def is_linebreak_def str_replace_star_def)

text \<open>The three strings, the empty one included, are the queries of the searches.\<close>

lemma generate_assertions_bullet_slip_searches:
  "filter is_search_call (snd (snd (process_user_input markup_services ''x'' 0)))
     = [Search_call '' Does elon musk own deepseek?'', Search_call '' Is 23=6?'', Search_call []]"
  by (simp add: process_user_input_def generate_assertions_def fetch_all_results_def
      fetch_result_def dict_of_pairs_def evaluate_assertions_def asyncprocess_and_evaluate_def
      markup_services_def str_strip_def is_space_def str_splitlines_def is_linebreak_def
      str_replace_star_def)

end
